theory Spec2Isabelle
  imports Main "HOL-Library.Sublist"
begin

section \<open>The logs command of the CLI (cli/cmd/logs.go)\<close>

text \<open>
  The command tails the logs of every container of every control-plane pod, tags each
  line with a coloured identifier and prints the lines as they arrive. The theory embeds
  \<^verbatim>\<open>ColorPicker.pick\<close>, \<^verbatim>\<open>newColorPicker\<close>, \<^verbatim>\<open>validateArgs\<close> and
  \<^verbatim>\<open>runLogOutput\<close>. Names follow the Go source.
\<close>

subsection \<open>Errors and panics\<close>

text \<open>
  A Go error made by \<^verbatim>\<open>errors.New\<close>; the selector \<open>Error\<close> is the method
  \<^verbatim>\<open>err.Error()\<close>, which is what the verb \<^verbatim>\<open>%s\<close> prints.
\<close>

datatype error = errors_New (Error: string)

text \<open>The run-time panic of \<open>pick\<close>: an index out of the range of the palette.\<close>

datatype panic = IndexOutOfRange

subsection \<open>The Kubernetes objects the command reads\<close>

text \<open>
  Of \<^verbatim>\<open>v1.Container\<close>, \<^verbatim>\<open>v1.PodSpec\<close>, \<^verbatim>\<open>v1.Pod\<close> and \<^verbatim>\<open>v1.PodList\<close> only
  the fields the command reads are kept. The zero value of a pod has the empty name and
  no containers.
\<close>

record Container =
  Name :: string

record PodSpec =
  Containers :: "Container list"

record Pod =
  Name :: string
  Spec :: PodSpec

record PodList =
  Items :: "Pod list"

definition Pod_zero :: Pod where
  "Pod_zero = \<lparr>Name = [], Spec = \<lparr>Containers = []\<rparr>\<rparr>"

record logFilter =
  targetPod :: Pod
  targetContainerName :: string

definition logFilter_zero :: logFilter where
  "logFilter_zero = \<lparr>targetPod = Pod_zero, targetContainerName = []\<rparr>"

subsection \<open>Colours (package chalk)\<close>

text \<open>
  The colours of the external package chalk. \<open>String\<close> is the ANSI escape sequence of
  a colour and \<open>Color c val\<close> is the method \<^verbatim>\<open>c.Color(val)\<close>: the text between the
  colour's escape sequence and the reset sequence. \<open>Black\<close> is the zero value of the type.
\<close>

datatype Color = Black | Red | Green | Yellow | Blue | Magenta | Cyan | White | ResetColor

fun colorValue :: "Color \<Rightarrow> string" where
  "colorValue Black = ''30''"
| "colorValue Red = ''31''"
| "colorValue Green = ''32''"
| "colorValue Yellow = ''33''"
| "colorValue Blue = ''34''"
| "colorValue Magenta = ''35''"
| "colorValue Cyan = ''36''"
| "colorValue White = ''37''"
| "colorValue ResetColor = ''39''"

definition String :: "Color \<Rightarrow> string" where
  "String c = CHR 0x1B # ''['' @ colorValue c @ ''m''"

definition Color :: "Color \<Rightarrow> string \<Rightarrow> string" where
  "Color c val = String c @ val @ String ResetColor"

subsection \<open>ColorPicker\<close>

text \<open>
  The mutex of the Go struct makes each call of \<open>pick\<close> one atomic step, so concurrent
  calls are a sequence of calls in the order the lock was taken; the model passes the
  picker's state through that sequence. \<open>lastUsedColor\<close> is a Go \<^verbatim>\<open>int\<close>: the
  increment is only reached with \<open>lastUsedColor \<le> len - 1\<close>, so it cannot overflow.
\<close>

record ColorPicker =
  m :: "string \<rightharpoonup> Color"
  availableColors :: "Color list"
  lastUsedColor :: int

definition pick :: "string \<Rightarrow> ColorPicker \<Rightarrow> panic + (Color \<times> ColorPicker)" where
  "pick ident c =
     (case m c ident of
        Some color \<Rightarrow> Inr (color, c)
      | None \<Rightarrow>
          let c1 = (if lastUsedColor c > int (length (availableColors c)) - 1
                    then c\<lparr>lastUsedColor := 0\<rparr> else c)
          in if lastUsedColor c1 < 0 \<or> int (length (availableColors c1)) \<le> lastUsedColor c1
             then Inl IndexOutOfRange
             else
               let c2 = c1\<lparr>m := (m c1)(ident \<mapsto> availableColors c1 ! nat (lastUsedColor c1))\<rparr>;
                   c3 = c2\<lparr>lastUsedColor := lastUsedColor c2 + 1\<rparr>
               in Inr (case m c3 ident of Some color \<Rightarrow> color | None \<Rightarrow> Black, c3))"

definition newColorPicker :: ColorPicker where
  "newColorPicker =
     \<lparr>m = Map.empty,
      availableColors = [Yellow, Red, Cyan, Green, Magenta],
      lastUsedColor = 0\<rparr>"

text \<open>
  A sequence of calls of \<open>pick\<close> on one picker, in the order the mutex serialises them:
  the colours returned, call by call, and the picker afterwards. A panic ends the run.
\<close>

fun picks :: "string list \<Rightarrow> ColorPicker \<Rightarrow> panic + (Color list \<times> ColorPicker)" where
  "picks [] c = Inr ([], c)"
| "picks (ident # idents) c =
     (case pick ident c of
        Inl p \<Rightarrow> Inl p
      | Inr (color, c') \<Rightarrow>
          (case picks idents c' of
             Inl p \<Rightarrow> Inl p
           | Inr (colors, c'') \<Rightarrow> Inr (color # colors, c'')))"

subsection \<open>validateArgs\<close>

text \<open>
  The pod list is a pointer in Go: \<open>None\<close> is \<^verbatim>\<open>nil\<close>. The two loops return at the
  first container that passes both tests; \<open>None\<close> means the loop ran to its end.
\<close>

fun containerLoop :: "Pod \<Rightarrow> string \<Rightarrow> Container list \<Rightarrow> logFilter option" where
  "containerLoop pod containerName [] = None"
| "containerLoop pod containerName (container # rest) =
     (if containerName = [] \<or> containerName = Container.Name container
      then Some \<lparr>targetPod = pod, targetContainerName = containerName\<rparr>
      else containerLoop pod containerName rest)"

fun podLoop :: "string \<Rightarrow> string \<Rightarrow> Pod list \<Rightarrow> logFilter option" where
  "podLoop podName containerName [] = None"
| "podLoop podName containerName (pod # rest) =
     (if podName = [] \<or> podName = Pod.Name pod
      then (case containerLoop pod containerName (Containers (Spec pod)) of
              Some f \<Rightarrow> Some f
            | None \<Rightarrow> podLoop podName containerName rest)
      else podLoop podName containerName rest)"

definition validateArgs :: "string list \<Rightarrow> PodList option \<Rightarrow> string \<Rightarrow> error + logFilter" where
  "validateArgs args pods containerName =
     (case pods of
        None \<Rightarrow> Inl (errors_New ''no pods to filter logs from'')
      | Some pl \<Rightarrow>
          let podName = (if length args = 1 then args ! 0 else [])
          in if podName = [] \<and> containerName = [] then Inr logFilter_zero
             else (case podLoop podName containerName (Items pl) of
                     Some f \<Rightarrow> Inr f
                   | None \<Rightarrow>
                       Inl (errors_New (''['' @ containerName @ ''] is not a valid container in pod [''
                                        @ podName @ '']''))))"

subsection \<open>Options of a run\<close>

text \<open>
  One call of \<^verbatim>\<open>bufReader.ReadBytes('\n')\<close> returns the bytes read and an error, which
  is \<open>None\<close> for \<^verbatim>\<open>nil\<close>. A log stream is the list of the results its successive reads
  return; when the list is used up the next read blocks, as a followed stream does while
  the container writes nothing.
\<close>

type_synonym read = "string \<times> error option"

text \<open>
  \<open>logCmdOpts\<close> embeds \<open>logFilter\<close>. The field \<open>clientset\<close> stands for
  \<^verbatim>\<open>clientset.CoreV1().Pods(ns).GetLogs(p, {Container: c, Follow: true}).Stream()\<close>: for a
  pod name and a container name, an error or the stream. The fields \<^verbatim>\<open>kubeAPI\<close> and
  \<^verbatim>\<open>k8sClient\<close> are not read by the code below.
\<close>

record logCmdOpts = logFilter +
  controlPlanePods :: "PodList option"
  clientset :: "string \<Rightarrow> string \<Rightarrow> error + read list"

text \<open>
  \<open>newLogOptions\<close> after the calls to the Kubernetes client: \<open>pods\<close> is what listing the
  control-plane pods returned and \<open>cs\<close> the client set.
\<close>

definition newLogOptions ::
  "string list \<Rightarrow> string \<Rightarrow> PodList option \<Rightarrow> (string \<Rightarrow> string \<Rightarrow> error + read list)
     \<Rightarrow> error + logCmdOpts" where
  "newLogOptions args containerFilter pods cs =
     (case validateArgs args pods containerFilter of
        Inl err \<Rightarrow> Inl err
      | Inr filterOpts \<Rightarrow>
          Inr \<lparr>targetPod = targetPod filterOpts,
               targetContainerName = targetContainerName filterOpts,
               controlPlanePods = pods,
               clientset = cs\<rparr>)"

subsection \<open>runLogOutput\<close>

text \<open>
  \<open>runLogOutput\<close> starts one goroutine per container and then loops forever on the
  channel \<^verbatim>\<open>lineRead\<close>. A goroutine is at one of four places: before it opens its
  stream, before a read, blocked on the send of a formatted line, or returned. The main
  loop is blocked on the receive or about to print the line it received. The channel is
  unbuffered, so a send and the receive are one step of both. The deferred
  \<^verbatim>\<open>stream.Close()\<close> of a returning goroutine touches nothing of the state kept here
  and is left out.
\<close>

datatype goroutine =
    Opening string string
  | Reading string string "read list"
  | Sending string string string "read list"
  | Returned

datatype mainLoop = Receiving | Printing string

text \<open>
  The state of the process: the shared picker, the goroutines in the order they were
  started, whether the channel \<^verbatim>\<open>lineRead\<close> is closed, the main loop, the files the
  process writes to, and the exit code once the process has ended (1 from
  \<^verbatim>\<open>os.Exit(1)\<close>, 2 from a panic).

  \<open>files\<close> is one state for everything the process writes to, so that the writer and
  the standard output can be the same file. Two methods act on it: \<open>Write\<close>, of the
  \<^verbatim>\<open>io.Writer\<close> passed to \<open>runLogOutput\<close>, and \<open>os_Stdout\<close>, the \<^verbatim>\<open>Write\<close> of
  \<^verbatim>\<open>os.Stdout\<close>, which \<^verbatim>\<open>fmt.Printf\<close> calls. Each returns the new state (a failed write
  may have written a part) and the error. The command passes \<^verbatim>\<open>os.Stdout\<close> as the
  writer: there the two methods are one.

  A channel of Go can be closed: a send on a closed channel panics, a receive from it
  returns the zero value at once. No statement of the code closes \<^verbatim>\<open>lineRead\<close>, so no
  step below sets \<open>lineReadClosed\<close>.
\<close>

record 'w process =
  colorPicker :: ColorPicker
  goroutines :: "goroutine list"
  lineReadClosed :: bool
  mainLoop :: mainLoop
  files :: 'w
  exited :: "int option"

definition loglineID :: "string \<Rightarrow> string \<Rightarrow> string" where
  "loglineID p c = ''['' @ p @ '' '' @ c @ '']''"

text \<open>
  One step of goroutine \<open>i\<close>. \<^verbatim>\<open>fmt.Printf\<close> writes its text to the standard output
  and the code drops the error it returns.
\<close>

definition goStep ::
  "('w \<Rightarrow> string \<Rightarrow> 'w \<times> error option) \<Rightarrow> logCmdOpts \<Rightarrow> nat \<Rightarrow> 'w process \<Rightarrow> 'w process" where
  "goStep os_Stdout opts i s =
     (case goroutines s ! i of
        Opening p c \<Rightarrow>
          (case clientset opts p c of
             Inl err \<Rightarrow> s\<lparr>goroutines := (goroutines s)[i := Returned]\<rparr>
           | Inr stream \<Rightarrow> s\<lparr>goroutines := (goroutines s)[i := Reading p c stream]\<rparr>)
      | Reading p c stream \<Rightarrow>
          (case stream of
             [] \<Rightarrow> s
           | (bytes, Some err) # rest \<Rightarrow>
               s\<lparr>files := fst (os_Stdout (files s) (''ERR: '' @ Error err @ [CHR 0x0A])),
                 goroutines := (goroutines s)[i := Returned]\<rparr>
           | (bytes, None) # rest \<Rightarrow>
               (case pick (loglineID p c) (colorPicker s) of
                  Inl pn \<Rightarrow> s\<lparr>exited := Some 2\<rparr>
                | Inr (color, cp) \<Rightarrow>
                    s\<lparr>colorPicker := cp,
                      goroutines := (goroutines s)
                        [i := Sending p c (Color color (loglineID p c) @ '' '' @ bytes) rest]\<rparr>))
      | Sending p c line rest \<Rightarrow>
          if lineReadClosed s then s\<lparr>exited := Some 2\<rparr>
          else (case mainLoop s of
                  Receiving \<Rightarrow>
                    s\<lparr>mainLoop := Printing line,
                      goroutines := (goroutines s)[i := Reading p c rest]\<rparr>
                | Printing l \<Rightarrow> s)
      | Returned \<Rightarrow> s)"

text \<open>
  One step of the main loop. \<^verbatim>\<open>fmt.Fprint\<close> calls \<open>Write\<close> once with the line.
\<close>

definition mainStep :: "('w \<Rightarrow> string \<Rightarrow> 'w \<times> error option) \<Rightarrow> 'w process \<Rightarrow> 'w process" where
  "mainStep Write s =
     (case mainLoop s of
        Receiving \<Rightarrow> if lineReadClosed s then s\<lparr>mainLoop := Printing []\<rparr> else s
      | Printing line \<Rightarrow>
          (case Write (files s) line of
             (w, Some err) \<Rightarrow> s\<lparr>files := w, exited := Some 1\<rparr>
           | (w, None) \<Rightarrow> s\<lparr>files := w, mainLoop := Receiving\<rparr>))"

text \<open>
  The scheduler picks the thread that moves next. Nothing moves once the process has
  exited; a goroutine that was never started does not move.
\<close>

datatype thread = Main | Go nat

definition step ::
  "('w \<Rightarrow> string \<Rightarrow> 'w \<times> error option) \<Rightarrow> ('w \<Rightarrow> string \<Rightarrow> 'w \<times> error option) \<Rightarrow>
     logCmdOpts \<Rightarrow> thread \<Rightarrow> 'w process \<Rightarrow> 'w process" where
  "step Write os_Stdout opts t s =
     (if exited s \<noteq> None then s
      else (case t of
              Main \<Rightarrow> mainStep Write s
            | Go i \<Rightarrow> if i < length (goroutines s) then goStep os_Stdout opts i s else s))"

fun run ::
  "('w \<Rightarrow> string \<Rightarrow> 'w \<times> error option) \<Rightarrow> ('w \<Rightarrow> string \<Rightarrow> 'w \<times> error option) \<Rightarrow>
     logCmdOpts \<Rightarrow> thread list \<Rightarrow> 'w process \<Rightarrow> 'w process" where
  "run Write os_Stdout opts [] s = s"
| "run Write os_Stdout opts (t # ts) s =
     run Write os_Stdout opts ts (step Write os_Stdout opts t s)"

text \<open>
  The state when \<open>runLogOutput\<close> enters its loop: the goroutines of the two nested
  \<^verbatim>\<open>for\<close> loops, started only when the filter is empty.
\<close>

definition start :: "'w \<Rightarrow> logCmdOpts \<Rightarrow> 'w process" where
  "start w opts =
     (let s = \<lparr>colorPicker = newColorPicker, goroutines = [], lineReadClosed = False,
               mainLoop = Receiving, files = w, exited = None\<rparr>
      in if Pod.Name (targetPod opts) = [] \<and> targetContainerName opts = []
         then (case controlPlanePods opts of
                 None \<Rightarrow> s\<lparr>exited := Some 2\<rparr>
               | Some pl \<Rightarrow>
                   s\<lparr>goroutines :=
                       concat (map (\<lambda>pod. map (\<lambda>container.
                                 Opening (Pod.Name pod) (Container.Name container))
                               (Containers (Spec pod)))
                            (Items pl))\<rparr>)
         else s)"

text \<open>
  \<open>runLogOutput\<close> never returns: its value here is the state of the process after the
  steps of a schedule, a finite prefix of the run.
\<close>

definition runLogOutput ::
  "('w \<Rightarrow> string \<Rightarrow> 'w \<times> error option) \<Rightarrow> ('w \<Rightarrow> string \<Rightarrow> 'w \<times> error option) \<Rightarrow>
     'w \<Rightarrow> logCmdOpts \<Rightarrow> thread list \<Rightarrow> 'w process" where
  "runLogOutput Write os_Stdout w opts sched = run Write os_Stdout opts sched (start w opts)"

text \<open>
  The function \<^verbatim>\<open>RunE\<close> of \<open>newCmdLogs\<close>: the options, then
  \<^verbatim>\<open>runLogOutput(os.Stdout, opts)\<close>. The writer is the standard output.
\<close>

definition newCmdLogs_RunE ::
  "('w \<Rightarrow> string \<Rightarrow> 'w \<times> error option) \<Rightarrow> 'w \<Rightarrow> string list \<Rightarrow> string \<Rightarrow> PodList option \<Rightarrow>
     (string \<Rightarrow> string \<Rightarrow> error + read list) \<Rightarrow> thread list \<Rightarrow> error + 'w process" where
  "newCmdLogs_RunE os_Stdout w args containerFilter pods cs sched =
     (case newLogOptions args containerFilter pods cs of
        Inl err \<Rightarrow> Inl err
      | Inr opts \<Rightarrow> Inr (runLogOutput os_Stdout os_Stdout w opts sched))"

text \<open>Two files: one that keeps everything written to it, and a closed pipe.\<close>

definition bufferWrite :: "string \<Rightarrow> string \<Rightarrow> string \<times> error option" where
  "bufferWrite w p = (w @ p, None)"

definition closedWrite :: "string \<Rightarrow> string \<Rightarrow> string \<times> error option" where
  "closedWrite w p = (w, Some (errors_New ''io: read/write on closed pipe''))"

subsection \<open>Notions the properties are stated with\<close>

text \<open>
  The number of distinct identifiers presented before the first occurrence of \<open>ident\<close>
  in a sequence of calls: \<open>k - 1\<close> for the \<open>k\<close>-th distinct identifier.
\<close>

definition seenBefore :: "string list \<Rightarrow> string \<Rightarrow> nat" where
  "seenBefore idents ident = card (set (takeWhile (\<lambda>y. y \<noteq> ident) idents))"

text \<open>
  The invariant of a picker after the calls \<open>pre\<close>: the table holds exactly the
  identifiers seen, each with the palette colour of its rank, and the cursor is one past
  the slot used last.
\<close>

definition pickerInv :: "string list \<Rightarrow> ColorPicker \<Rightarrow> bool" where
  "pickerInv pre c \<longleftrightarrow>
     availableColors c \<noteq> [] \<and>
     dom (m c) = set pre \<and>
     (\<forall>x\<in>set pre. m c x =
        Some (availableColors c ! (seenBefore pre x mod length (availableColors c)))) \<and>
     lastUsedColor c =
       (if pre = [] then 0
        else int ((card (set pre) - 1) mod length (availableColors c)) + 1)"

text \<open>Pods and streams of the examples.\<close>

definition mkPod :: "string \<Rightarrow> string list \<Rightarrow> Pod" where
  "mkPod n cs = \<lparr>Pod.Name = n, Spec = \<lparr>Containers = map (\<lambda>c. \<lparr>Container.Name = c\<rparr>) cs\<rparr>\<rparr>"

definition twoSources :: PodList where
  "twoSources = \<lparr>Items = [mkPod ''api'' [''stdout''], mkPod ''worker'' [''stdout'']]\<rparr>"

definition threeLines :: "string \<Rightarrow> string \<Rightarrow> error + read list" where
  "threeLines p c =
     Inr [(''1'' @ [CHR 0x0A], None), (''2'' @ [CHR 0x0A], None), (''3'' @ [CHR 0x0A], None)]"

definition failingStream :: "string \<Rightarrow> string \<Rightarrow> error + read list" where
  "failingStream p c = Inr [([], Some (errors_New ''EOF''))]"

definition unfilteredOpts ::
  "PodList \<Rightarrow> (string \<Rightarrow> string \<Rightarrow> error + read list) \<Rightarrow> logCmdOpts" where
  "unfilteredOpts pl cs =
     \<lparr>targetPod = Pod_zero, targetContainerName = [], controlPlanePods = Some pl, clientset = cs\<rparr>"

section \<open>Properties\<close>

subsection \<open>The loops of validateArgs\<close>

lemma containerLoop_find:
  "containerLoop pod c cs =
     (if \<exists>ct\<in>set cs. c = [] \<or> c = Container.Name ct
      then Some \<lparr>targetPod = pod, targetContainerName = c\<rparr> else None)"
  by (induction cs) auto

lemma podLoop_find:
  "podLoop p c pods =
     map_option (\<lambda>pod. \<lparr>targetPod = pod, targetContainerName = c\<rparr>)
       (find (\<lambda>pod. (p = [] \<or> p = Pod.Name pod) \<and>
                    (\<exists>ct\<in>set (Containers (Spec pod)). c = [] \<or> c = Container.Name ct)) pods)"
  by (induction pods) (auto simp: containerLoop_find)

lemma podLoop_None:
  "\<forall>pod\<in>set pods. \<forall>ct\<in>set (Containers (Spec pod)).
      \<not> ((p = [] \<or> p = Pod.Name pod) \<and> (c = [] \<or> c = Container.Name ct))
   \<Longrightarrow> podLoop p c pods = None"
  by (auto simp: podLoop_find find_None_iff)

subsection \<open>The picker keeps its invariant\<close>

lemma seenBefore_old: "x \<in> set pre \<Longrightarrow> seenBefore (pre @ ys) x = seenBefore pre x"
  by (simp add: seenBefore_def takeWhile_append1)

lemma seenBefore_new: "x \<notin> set pre \<Longrightarrow> seenBefore (pre @ x # ys) x = card (set pre)"
proof -
  assume "x \<notin> set pre"
  then have "takeWhile (\<lambda>y. y \<noteq> x) (pre @ x # ys) = pre"
    by (subst takeWhile_append2) auto
  then show ?thesis by (simp add: seenBefore_def)
qed

lemma pickerInv_init: "pickerInv [] newColorPicker"
  by (simp add: pickerInv_def newColorPicker_def)

lemma next_index:
  fixes n P :: nat
  assumes "0 < P" "0 < n" "l = int ((n - 1) mod P) + 1"
  shows "(if l > int P - 1 then 0 else l) = int (n mod P)"
proof -
  obtain k where n: "n = Suc k" using assms(2) by (cases n) auto
  have l: "l = int (k mod P) + 1" using assms(3) n by simp
  show ?thesis
  proof (cases "Suc (k mod P) = P")
    case True
    then show ?thesis using n l assms(1) by (simp add: mod_Suc)
  next
    case False
    moreover have "k mod P < P" using assms(1) by simp
    ultimately show ?thesis using n l by (auto simp: mod_Suc)
  qed
qed

lemma pick_seen:
  assumes "pickerInv pre c" "x \<in> set pre"
  shows "pick x c =
           Inr (availableColors c ! (seenBefore (pre @ [x]) x mod length (availableColors c)), c)
         \<and> pickerInv (pre @ [x]) c"
proof -
  have mx: "m c x = Some (availableColors c ! (seenBefore pre x mod length (availableColors c)))"
    using assms by (simp add: pickerInv_def)
  have "pre \<noteq> []" using assms(2) by auto
  have s: "set (pre @ [x]) = set pre" using assms(2) by auto
  have "pickerInv (pre @ [x]) c"
    using assms \<open>pre \<noteq> []\<close> unfolding pickerInv_def s
    by (auto simp: seenBefore_old insert_absorb)
  then show ?thesis using mx assms(2) by (simp add: pick_def seenBefore_old)
qed

lemma pick_fresh:
  assumes "pickerInv pre c" "x \<notin> set pre"
  shows "\<exists>c'. pick x c =
                Inr (availableColors c ! (seenBefore (pre @ [x]) x mod length (availableColors c)), c')
         \<and> pickerInv (pre @ [x]) c' \<and> availableColors c' = availableColors c"
proof -
  let ?pal = "availableColors c"
  let ?P = "length ?pal"
  let ?n = "card (set pre)"
  have P: "0 < ?P" using assms(1) by (simp add: pickerInv_def)
  have mx: "m c x = None" using assms by (auto simp: pickerInv_def)
  have idx: "(if lastUsedColor c > int ?P - 1 then 0 else lastUsedColor c) = int (?n mod ?P)"
  proof (cases "pre = []")
    case True
    then show ?thesis using assms(1) P by (simp add: pickerInv_def)
  next
    case False
    then have "0 < ?n" by (simp add: card_gt_0_iff)
    moreover have "lastUsedColor c = int ((?n - 1) mod ?P) + 1"
      using assms(1) False by (simp add: pickerInv_def)
    ultimately show ?thesis by (rule next_index[OF P])
  qed
  define c' where
    "c' = c\<lparr>m := (m c)(x \<mapsto> ?pal ! (?n mod ?P)), lastUsedColor := int (?n mod ?P) + 1\<rparr>"
  have lt: "?n mod ?P < ?P" using P by simp
  have pk: "pick x c = Inr (?pal ! (?n mod ?P), c')"
  proof (cases "lastUsedColor c > int ?P - 1")
    case True
    with idx have "?n mod ?P = 0" by simp
    with True P mx show ?thesis by (simp add: pick_def c'_def Let_def)
  next
    case False
    with idx have l: "lastUsedColor c = int (?n mod ?P)" by simp
    have nb: "\<not> int ?P - 1 < int (?n mod ?P)" using lt by linarith
    show ?thesis using P mx lt nb by (simp add: pick_def c'_def Let_def l)
  qed
  have card: "card (set (pre @ [x])) = Suc ?n" using assms(2) by simp
  have inv: "pickerInv (pre @ [x]) c'"
    unfolding pickerInv_def
  proof (intro conjI)
    show "availableColors c' \<noteq> []" using P by (simp add: c'_def)
    show "dom (m c') = set (pre @ [x])" using assms(1) by (auto simp: c'_def pickerInv_def)
    show "\<forall>y\<in>set (pre @ [x]). m c' y =
            Some (availableColors c' ! (seenBefore (pre @ [x]) y mod length (availableColors c')))"
      using assms by (auto simp: c'_def pickerInv_def seenBefore_old seenBefore_new)
    show "lastUsedColor c' = (if pre @ [x] = [] then 0
            else int ((card (set (pre @ [x])) - 1) mod length (availableColors c')) + 1)"
      unfolding card by (simp add: c'_def)
  qed
  show ?thesis using pk inv assms(2) by (auto simp: seenBefore_new c'_def)
qed

lemma pick_inv:
  assumes "pickerInv pre c"
  shows "\<exists>c'. pick x c =
                Inr (availableColors c ! (seenBefore (pre @ [x]) x mod length (availableColors c)), c')
         \<and> pickerInv (pre @ [x]) c' \<and> availableColors c' = availableColors c"
  using pick_seen[OF assms, of x] pick_fresh[OF assms, of x] by (cases "x \<in> set pre") auto

lemma picks_inv:
  "pickerInv pre c \<Longrightarrow>
   \<exists>cs c'. picks ids c = Inr (cs, c') \<and> length cs = length ids \<and>
     (\<forall>i<length ids. cs ! i =
        availableColors c ! (seenBefore (pre @ ids) (ids ! i) mod length (availableColors c)))"
proof (induction ids arbitrary: pre c)
  case Nil
  then show ?case by simp
next
  case (Cons x xs)
  let ?pal = "availableColors c"
  obtain c1 where p1: "pick x c = Inr (?pal ! (seenBefore (pre @ [x]) x mod length ?pal), c1)"
    and i1: "pickerInv (pre @ [x]) c1" and a1: "availableColors c1 = ?pal"
    using pick_inv[OF Cons.prems, of x] by blast
  obtain cs c' where p2: "picks xs c1 = Inr (cs, c')" and l2: "length cs = length xs"
    and r2: "\<forall>i<length xs. cs ! i = ?pal ! (seenBefore ((pre @ [x]) @ xs) (xs ! i) mod length ?pal)"
    using Cons.IH[OF i1] a1 by auto
  have x0: "seenBefore (pre @ x # xs) x = seenBefore (pre @ [x]) x"
    using seenBefore_old[of x "pre @ [x]" xs] by simp
  have "\<forall>i<length (x # xs). ((?pal ! (seenBefore (pre @ [x]) x mod length ?pal)) # cs) ! i
          = ?pal ! (seenBefore (pre @ x # xs) ((x # xs) ! i) mod length ?pal)"
  proof (intro allI impI)
    fix i assume "i < length (x # xs)"
    then show "((?pal ! (seenBefore (pre @ [x]) x mod length ?pal)) # cs) ! i
          = ?pal ! (seenBefore (pre @ x # xs) ((x # xs) ! i) mod length ?pal)"
      using r2 x0 by (cases i) auto
  qed
  then show ?case using p1 p2 l2 by simp
qed

lemma picks_new:
  "\<exists>cs c'. picks ids newColorPicker = Inr (cs, c') \<and> length cs = length ids \<and>
     (\<forall>i<length ids. cs ! i = availableColors newColorPicker !
          (seenBefore ids (ids ! i) mod length (availableColors newColorPicker)))"
  using picks_inv[OF pickerInv_init, of ids] by simp

subsection \<open>Steps of the process\<close>

lemma run_exited: "exited s \<noteq> None \<Longrightarrow> run Write os_Stdout opts sched s = s"
  by (induction sched) (auto simp: step_def)

lemma step_idle:
  "goroutines s = [] \<Longrightarrow> \<not> lineReadClosed s \<Longrightarrow> mainLoop s = Receiving \<Longrightarrow>
   step Write os_Stdout opts t s = s"
  by (cases t) (auto simp: step_def mainStep_def)

lemma run_idle:
  "goroutines s = [] \<Longrightarrow> \<not> lineReadClosed s \<Longrightarrow> mainLoop s = Receiving \<Longrightarrow>
   run Write os_Stdout opts sched s = s"
  by (induction sched) (auto simp: step_idle)

lemma step_Returned:
  assumes "i < length (goroutines s)" "goroutines s ! i = Returned"
  shows "i < length (goroutines (step Write os_Stdout opts t s)) \<and>
         goroutines (step Write os_Stdout opts t s) ! i = Returned"
proof (cases t)
  case Main
  then show ?thesis using assms
    by (auto simp: step_def mainStep_def split: mainLoop.splits prod.splits option.splits)
next
  case (Go j)
  show ?thesis
  proof (cases "j = i")
    case True
    then show ?thesis using assms Go by (simp add: step_def goStep_def)
  next
    case False
    then show ?thesis using assms Go
      by (auto simp: step_def goStep_def Let_def
               split: goroutine.splits sum.splits list.splits prod.splits option.splits
                      mainLoop.splits if_splits)
  qed
qed

lemma run_Returned:
  "i < length (goroutines s) \<Longrightarrow> goroutines s ! i = Returned \<Longrightarrow>
   i < length (goroutines (run Write os_Stdout opts sched s)) \<and>
   goroutines (run Write os_Stdout opts sched s) ! i = Returned"
proof (induction sched arbitrary: s)
  case Nil
  then show ?case by simp
next
  case (Cons t ts)
  from step_Returned[OF Cons.prems, of Write os_Stdout opts t]
  show ?case using Cons.IH[of "step Write os_Stdout opts t s"] by simp
qed

lemma Go_Returned: "goroutines s ! i = Returned \<Longrightarrow> step Write os_Stdout opts (Go i) s = s"
  by (simp add: step_def goStep_def)

text \<open>
  An unfiltered run of the two sources under one schedule: both goroutines open their
  streams, \<open>worker\<close> reads and is the first to pick a colour, its line is received and
  printed, then the first line of \<open>api\<close>.
\<close>

lemma unfiltered_example:
  "files (runLogOutput bufferWrite bufferWrite [] (unfilteredOpts twoSources threeLines)
      [Go 0, Go 1, Go 1, Go 1, Main, Go 0, Go 0, Main]) =
   Color Yellow ''[worker stdout]'' @ '' 1'' @ [CHR 0x0A] @
   Color Red ''[api stdout]'' @ '' 1'' @ [CHR 0x0A]"
  by (simp add: runLogOutput_def start_def unfilteredOpts_def Pod_zero_def twoSources_def
        mkPod_def step_def goStep_def mainStep_def threeLines_def loglineID_def pick_def
        newColorPicker_def bufferWrite_def Let_def)

section \<open>The claims\<close>

subsection \<open>Selection\<close>

text \<open>
  C8. For every pod list that is not nil, when the pod name is absent (no single
  positional argument, or an empty one) and the container name is empty,
  \<open>validateArgs\<close> returns the empty filter and no error.
\<close>

theorem validateArgs_unfiltered:
  "(if length args = 1 then args ! 0 else []) = [] \<Longrightarrow>
   validateArgs args (Some pl) [] = Inr logFilter_zero"
  by (simp add: validateArgs_def)

text \<open>The theorem at no argument and the two sources.\<close>

theorem validateArgs_unfiltered_witness:
  "(if length ([] :: string list) = 1 then [] ! 0 else []) = ([] :: string) \<and>
   validateArgs [] (Some twoSources) [] = Inr logFilter_zero"
  using validateArgs_unfiltered [of "[]" twoSources] by simp

text \<open>
  C3. With a pod name and a container name both given, \<open>validateArgs\<close> scans the pods
  in the order of the list and returns the first pod that has the name and holds a
  container of the given name, together with the container name asked for.
\<close>

theorem validateArgs_first_match:
  assumes "podName \<noteq> []" and "containerName \<noteq> []"
    and "find (\<lambda>pod. Pod.Name pod = podName \<and>
                 containerName \<in> Container.Name ` set (Containers (Spec pod))) (Items pl) = Some pod"
  shows "validateArgs [podName] (Some pl) containerName =
           Inr \<lparr>targetPod = pod, targetContainerName = containerName\<rparr>"
proof -
  have eq: "(\<lambda>pod. (podName = [] \<or> podName = Pod.Name pod) \<and>
                    (\<exists>ct\<in>set (Containers (Spec pod)).
                        containerName = [] \<or> containerName = Container.Name ct))
          = (\<lambda>pod. Pod.Name pod = podName \<and>
                 containerName \<in> Container.Name ` set (Containers (Spec pod)))"
    using assms(1,2) by auto
  have "podLoop podName containerName (Items pl) =
          Some \<lparr>targetPod = pod, targetContainerName = containerName\<rparr>"
    unfolding podLoop_find eq assms(3) by simp
  then show ?thesis using assms(1)
    by (simp add: validateArgs_def)
qed

text \<open>
  The theorem at a list of three pods: the pod \<open>nameA\<close> with the containers \<open>subA\<close>
  and \<open>subB\<close> comes after a pod of another name that holds \<open>subB\<close> and before a second
  pod \<open>nameA\<close>. The result is the first \<open>nameA\<close> with \<open>subB\<close>, not \<open>subA\<close>.
\<close>

theorem validateArgs_first_match_witness:
  "validateArgs [''nameA'']
     (Some \<lparr>Items = [mkPod ''other'' [''subB''], mkPod ''nameA'' [''subA'', ''subB''],
                     mkPod ''nameA'' [''subB'']]\<rparr>) ''subB'' =
   Inr \<lparr>targetPod = mkPod ''nameA'' [''subA'', ''subB''], targetContainerName = ''subB''\<rparr>"
proof -
  have h1: "''nameA'' \<noteq> []" and h2: "''subB'' \<noteq> []" by simp_all
  have h3: "find (\<lambda>pod. Pod.Name pod = ''nameA'' \<and>
                    ''subB'' \<in> Container.Name ` set (Containers (Spec pod)))
              (Items \<lparr>Items = [mkPod ''other'' [''subB''], mkPod ''nameA'' [''subA'', ''subB''],
                     mkPod ''nameA'' [''subB'']]\<rparr>) = Some (mkPod ''nameA'' [''subA'', ''subB''])"
    by (simp add: mkPod_def)
  show ?thesis by (rule validateArgs_first_match [OF h1 h2 h3])
qed

text \<open>
  The scan fails whenever a name is given and no container of any pod passes both
  tests; the message of the error holds both names.
\<close>

lemma validateArgs_scan_fails:
  assumes "podName = (if length args = 1 then args ! 0 else [])"
    and "podName \<noteq> [] \<or> containerName \<noteq> []"
    and "\<forall>pod\<in>set (Items pl). \<forall>ct\<in>set (Containers (Spec pod)).
           \<not> ((podName = [] \<or> podName = Pod.Name pod) \<and>
              (containerName = [] \<or> containerName = Container.Name ct))"
  shows "\<exists>msg. validateArgs args (Some pl) containerName = Inl (errors_New msg) \<and>
           msg = ''['' @ containerName @ ''] is not a valid container in pod ['' @ podName @ '']'' \<and>
           sublist containerName msg \<and> sublist podName msg"
proof -
  let ?msg = "''['' @ containerName @ ''] is not a valid container in pod ['' @ podName @ '']''"
  have "podLoop podName containerName (Items pl) = None"
    using assms(3) by (rule podLoop_None)
  moreover have "sublist containerName ?msg"
    unfolding sublist_def by blast
  moreover have "sublist podName ?msg"
    unfolding sublist_def
    by (rule exI[of _ "''['' @ containerName @ ''] is not a valid container in pod [''"],
        rule exI[of _ "'']''"]) simp
  ultimately show ?thesis using assms(1,2)
    by (auto simp: validateArgs_def Let_def)
qed

text \<open>
  C9. For every pod list that holds a pair of a pod and a container, and every selector
  (the pod name, absent unless there is one positional argument, and the container
  name) that no pair of the list matches, \<open>validateArgs\<close> fails with the error
  \<^verbatim>\<open>[<container>] is not a valid container in pod [<pod>]\<close>, whose message contains
  the container name and the pod name asked for. An absent name matches every name.
\<close>

theorem validateArgs_not_found:
  assumes "podName = (if length args = 1 then args ! 0 else [])"
    and "\<exists>pod\<in>set (Items pl). Containers (Spec pod) \<noteq> []"
    and "\<forall>pod\<in>set (Items pl). \<forall>ct\<in>set (Containers (Spec pod)).
           \<not> ((podName = [] \<or> podName = Pod.Name pod) \<and>
              (containerName = [] \<or> containerName = Container.Name ct))"
  shows "\<exists>msg. validateArgs args (Some pl) containerName = Inl (errors_New msg) \<and>
           msg = ''['' @ containerName @ ''] is not a valid container in pod ['' @ podName @ '']'' \<and>
           sublist containerName msg \<and> sublist podName msg"
proof -
  obtain pod ct where "pod \<in> set (Items pl)" and "ct \<in> set (Containers (Spec pod))"
    using assms(2) by (fastforce simp: neq_Nil_conv)
  with assms(3) have "podName \<noteq> [] \<or> containerName \<noteq> []"
    by blast
  with assms(1) show ?thesis
    using assms(3) by (rule validateArgs_scan_fails)
qed

text \<open>
  The theorem at the two sources and the pod name \<open>missing\<close>, which is the name of
  neither pod.
\<close>

theorem validateArgs_not_found_witness:
  "(\<exists>pod\<in>set (Items twoSources). Containers (Spec pod) \<noteq> []) \<and>
   validateArgs [''missing''] (Some twoSources) [] =
     Inl (errors_New ''[] is not a valid container in pod [missing]'')"
proof -
  have h1: "''missing'' = (if length [''missing''] = 1 then [''missing''] ! 0 else [])" by simp
  have h2: "\<exists>pod\<in>set (Items twoSources). Containers (Spec pod) \<noteq> []"
    by (simp add: twoSources_def mkPod_def)
  have h3: "\<forall>pod\<in>set (Items twoSources). \<forall>ct\<in>set (Containers (Spec pod)).
           \<not> ((''missing'' = [] \<or> ''missing'' = Pod.Name pod) \<and>
              ([] = [] \<or> [] = Container.Name ct))"
    by (simp add: twoSources_def mkPod_def)
  from validateArgs_not_found [OF h1 h2 h3] h2 show ?thesis by auto
qed

text \<open>
  C2, as amended. For every selector, \<open>validateArgs\<close> on the nil pod list fails with
  the error \<^verbatim>\<open>no pods to filter logs from\<close>, which no call on a pod list that is not
  nil returns; on the empty list that is not nil it returns the empty filter when both
  names are absent and the error of a selection not found otherwise.
\<close>

theorem validateArgs_nil_pods:
  "validateArgs args None containerName = Inl (errors_New ''no pods to filter logs from'') \<and>
   validateArgs args' (Some pl) containerName' \<noteq> Inl (errors_New ''no pods to filter logs from'') \<and>
   validateArgs args (Some \<lparr>Items = []\<rparr>) containerName =
     (if (if length args = 1 then args ! 0 else []) = [] \<and> containerName = []
      then Inr logFilter_zero
      else Inl (errors_New (''['' @ containerName @ ''] is not a valid container in pod [''
                      @ (if length args = 1 then args ! 0 else []) @ '']'')))"
  by (auto simp: validateArgs_def Let_def split: option.splits)

text \<open>
  C2 as stated fails on the empty pod list: without a selector the result is the empty
  filter, with one it is the error of a selection not found.
\<close>

theorem validateArgs_empty_pods_counterexample:
  "validateArgs [] (Some \<lparr>Items = []\<rparr>) [] = Inr logFilter_zero \<and>
   validateArgs [''api''] (Some \<lparr>Items = []\<rparr>) [] =
     Inl (errors_New ''[] is not a valid container in pod [api]'')"
  by (simp add: validateArgs_def)

text \<open>
  C10. With two or more positional arguments the pod name is the empty string, as with
  none: the arguments are ignored, and with no container name the result on a pod list
  is the empty filter.
\<close>

theorem validateArgs_many_args:
  "2 \<le> length args \<Longrightarrow>
     validateArgs args pods containerName = validateArgs [] pods containerName \<and>
     validateArgs args (Some pl) [] = Inr logFilter_zero"
  by (simp add: validateArgs_def)

text \<open>The theorem at the arguments \<open>worker\<close> and \<open>api\<close>.\<close>

theorem validateArgs_many_args_witness:
  "2 \<le> length [''worker'', ''api''] \<and>
   validateArgs [''worker'', ''api''] (Some twoSources) ''stdout'' =
     validateArgs [] (Some twoSources) ''stdout'' \<and>
   validateArgs [''worker'', ''api''] (Some twoSources) [] = Inr logFilter_zero"
  using validateArgs_many_args [of "[''worker'', ''api'']" "Some twoSources" "''stdout''" twoSources]
  by simp

subsection \<open>Colours\<close>

text \<open>
  C4. In every sequence of calls of \<open>pick\<close> on a new picker, every call returns, and a
  call with an identifier that an earlier call had returns the colour of that earlier
  call.
\<close>

theorem pick_idempotent:
  "\<exists>cs c'. picks ids newColorPicker = Inr (cs, c') \<and> length cs = length ids \<and>
     (\<forall>i j. i < j \<and> j < length ids \<and> ids ! i = ids ! j \<longrightarrow> cs ! j = cs ! i)"
proof -
  obtain cs c' where p: "picks ids newColorPicker = Inr (cs, c')" and l: "length cs = length ids"
    and r: "\<forall>i<length ids. cs ! i = availableColors newColorPicker !
          (seenBefore ids (ids ! i) mod length (availableColors newColorPicker))"
    using picks_new[of ids] by blast
  have "\<forall>i j. i < j \<and> j < length ids \<and> ids ! i = ids ! j \<longrightarrow> cs ! j = cs ! i"
    using r by auto
  with p l show ?thesis by blast
qed

text \<open>The theorem at the calls \<open>a\<close>, \<open>b\<close>, \<open>a\<close>: the third returns what the first did.\<close>

theorem pick_idempotent_witness:
  "\<exists>cs c'. picks [''a'', ''b'', ''a''] newColorPicker = Inr (cs, c') \<and> cs ! 2 = cs ! 0"
proof -
  obtain cs c' where p: "picks [''a'', ''b'', ''a''] newColorPicker = Inr (cs, c')"
    and r: "\<forall>i j. i < j \<and> j < length [''a'', ''b'', ''a''] \<and>
               [''a'', ''b'', ''a''] ! i = [''a'', ''b'', ''a''] ! j \<longrightarrow> cs ! j = cs ! i"
    using pick_idempotent [of "[''a'', ''b'', ''a'']"] by blast
  have "(0::nat) < 2 \<and> 2 < length [''a'', ''b'', ''a''] \<and>
        [''a'', ''b'', ''a''] ! 0 = [''a'', ''b'', ''a''] ! 2" by simp
  with r have "cs ! 2 = cs ! 0" by blast
  with p show ?thesis by blast
qed

text \<open>
  C5. The palette of a new picker has five colours, which is at least four. In every
  sequence of calls of \<open>pick\<close> on a new picker, the call with the \<open>k\<close>-th distinct
  identifier, and every later call with it, returns the palette colour at index
  \<open>(k - 1) mod 5\<close>.
\<close>

theorem pick_round_robin:
  "4 \<le> length (availableColors newColorPicker) \<and>
   (\<exists>cs c'. picks ids newColorPicker = Inr (cs, c') \<and> length cs = length ids \<and>
     (\<forall>i<length ids. cs ! i = availableColors newColorPicker !
          (seenBefore ids (ids ! i) mod length (availableColors newColorPicker))))"
  using picks_new[of ids] by (simp add: newColorPicker_def)

text \<open>
  The theorem at six distinct identifiers with one repeated: the sixth distinct
  identifier gets the colour of the first.
\<close>

theorem pick_round_robin_witness:
  "\<exists>cs c'. picks [''a'', ''b'', ''c'', ''b'', ''d'', ''e'', ''f''] newColorPicker = Inr (cs, c') \<and>
     cs ! 0 = Yellow \<and> cs ! 6 = Yellow"
proof -
  let ?ids = "[''a'', ''b'', ''c'', ''b'', ''d'', ''e'', ''f'']"
  obtain cs c' where p: "picks ?ids newColorPicker = Inr (cs, c')"
    and r: "\<forall>i<length ?ids. cs ! i = availableColors newColorPicker !
          (seenBefore ?ids (?ids ! i) mod length (availableColors newColorPicker))"
    using pick_round_robin [of ?ids] by blast
  have "cs ! 0 = Yellow"
    using r[rule_format, of 0] by (simp add: seenBefore_def newColorPicker_def)
  moreover have "seenBefore ?ids ''f'' = 5"
    by (simp add: seenBefore_def card_insert_if)
  then have "cs ! 6 = Yellow"
    using r[rule_format, of 6] by (simp add: newColorPicker_def)
  ultimately show ?thesis using p by blast
qed

subsection \<open>The run\<close>

text \<open>
  C1. The filtered run of the claim, on the code: two pods \<open>api\<close> and \<open>worker\<close> with one
  container each, every stream with three lines, and the argument \<open>worker\<close>. The filter
  \<open>validateArgs\<close> returns names the pod \<open>worker\<close>, \<open>runLogOutput\<close> starts no goroutine
  for it, and under every schedule nothing is written: the three lines of \<open>worker\<close>
  that the claim expects do not appear.
\<close>

theorem filtered_run_prints_nothing:
  "newLogOptions [''worker''] [] (Some twoSources) threeLines =
     Inr \<lparr>targetPod = mkPod ''worker'' [''stdout''], targetContainerName = [],
          controlPlanePods = Some twoSources, clientset = threeLines\<rparr> \<and>
   runLogOutput Write os_Stdout w
     \<lparr>targetPod = mkPod ''worker'' [''stdout''], targetContainerName = [],
      controlPlanePods = Some twoSources, clientset = threeLines\<rparr> sched =
     \<lparr>colorPicker = newColorPicker, goroutines = [], lineReadClosed = False,
      mainLoop = Receiving, files = w, exited = None\<rparr>"
proof -
  have a: "newLogOptions [''worker''] [] (Some twoSources) threeLines =
     Inr \<lparr>targetPod = mkPod ''worker'' [''stdout''], targetContainerName = [],
          controlPlanePods = Some twoSources, clientset = threeLines\<rparr>"
    by (simp add: newLogOptions_def validateArgs_def twoSources_def mkPod_def)
  have b: "start w \<lparr>targetPod = mkPod ''worker'' [''stdout''], targetContainerName = [],
      controlPlanePods = Some twoSources, clientset = threeLines\<rparr> =
     \<lparr>colorPicker = newColorPicker, goroutines = [], lineReadClosed = False,
      mainLoop = Receiving, files = w, exited = None\<rparr>"
    by (simp add: start_def mkPod_def)
  show ?thesis unfolding runLogOutput_def b using a by (simp add: run_idle)
qed

text \<open>
  C6, as amended. When a read of a goroutine fails, the goroutine writes
  \<^verbatim>\<open>ERR: <error>\<close> and a newline to the standard output and returns. It sends nothing:
  the main loop is where it was. It does not close the channel: the channel is closed
  after the step only if it was before. It does not retry: under every schedule the
  goroutine stays returned and its later steps change nothing.
\<close>

theorem read_failure_returns:
  assumes "exited s = None" and "i < length (goroutines s)"
    and "goroutines s ! i = Reading p c ((bytes, Some err) # rest)"
  shows "step Write os_Stdout opts (Go i) s =
           s\<lparr>files := fst (os_Stdout (files s) (''ERR: '' @ Error err @ [CHR 0x0A])),
             goroutines := (goroutines s)[i := Returned]\<rparr> \<and>
         mainLoop (step Write os_Stdout opts (Go i) s) = mainLoop s \<and>
         lineReadClosed (step Write os_Stdout opts (Go i) s) = lineReadClosed s \<and>
         (\<forall>sched.
            goroutines (run Write os_Stdout opts sched (step Write os_Stdout opts (Go i) s)) ! i
              = Returned \<and>
            step Write os_Stdout opts (Go i)
                 (run Write os_Stdout opts sched (step Write os_Stdout opts (Go i) s)) =
              run Write os_Stdout opts sched (step Write os_Stdout opts (Go i) s))"
proof -
  let ?s' = "s\<lparr>files := fst (os_Stdout (files s) (''ERR: '' @ Error err @ [CHR 0x0A])),
             goroutines := (goroutines s)[i := Returned]\<rparr>"
  have st: "step Write os_Stdout opts (Go i) s = ?s'"
    using assms by (simp add: step_def goStep_def)
  have "i < length (goroutines ?s')" "goroutines ?s' ! i = Returned"
    using assms(2) by simp_all
  then have "\<And>sched. goroutines (run Write os_Stdout opts sched ?s') ! i = Returned"
    using run_Returned by blast
  then show ?thesis unfolding st by (simp add: Go_Returned)
qed

text \<open>
  The theorem at a process of two goroutines whose writer is the standard output: the
  read of the first fails with \<open>EOF\<close> while the second is blocked on a send. The error
  line goes to the file, the second goroutine is as before, and the first stays
  returned while the line of the second is received and printed.
\<close>

theorem read_failure_returns_witness:
  "step bufferWrite bufferWrite (unfilteredOpts twoSources failingStream) (Go 0)
     \<lparr>colorPicker = newColorPicker,
      goroutines = [Reading ''api'' ''stdout'' [([], Some (errors_New ''EOF''))],
                    Sending ''worker'' ''stdout'' ''line'' []],
      lineReadClosed = False, mainLoop = Receiving, files = [], exited = None\<rparr> =
   \<lparr>colorPicker = newColorPicker,
    goroutines = [Returned, Sending ''worker'' ''stdout'' ''line'' []],
    lineReadClosed = False, mainLoop = Receiving, files = ''ERR: EOF'' @ [CHR 0x0A],
    exited = None\<rparr> \<and>
   goroutines (run bufferWrite bufferWrite (unfilteredOpts twoSources failingStream)
     [Go 0, Go 1, Main, Go 0]
     (step bufferWrite bufferWrite (unfilteredOpts twoSources failingStream) (Go 0)
       \<lparr>colorPicker = newColorPicker,
        goroutines = [Reading ''api'' ''stdout'' [([], Some (errors_New ''EOF''))],
                      Sending ''worker'' ''stdout'' ''line'' []],
        lineReadClosed = False, mainLoop = Receiving, files = [], exited = None\<rparr>)) ! 0
     = Returned"
proof -
  let ?s = "\<lparr>colorPicker = newColorPicker,
      goroutines = [Reading ''api'' ''stdout'' [([], Some (errors_New ''EOF''))],
                    Sending ''worker'' ''stdout'' ''line'' []],
      lineReadClosed = False, mainLoop = Receiving, files = ([] :: string), exited = None\<rparr>"
  have h1: "exited ?s = None" by simp
  have h2: "0 < length (goroutines ?s)" by simp
  have h3: "goroutines ?s ! 0 = Reading ''api'' ''stdout'' (([], Some (errors_New ''EOF'')) # [])"
    by simp
  note t = read_failure_returns [where Write = bufferWrite and os_Stdout = bufferWrite
      and opts = "unfilteredOpts twoSources failingStream", OF h1 h2 h3]
  from t [THEN conjunct1]
    t [THEN conjunct2, THEN conjunct2, THEN conjunct2, rule_format, of "[Go 0, Go 1, Main, Go 0]"]
  show ?thesis by (simp add: bufferWrite_def)
qed

text \<open>
  C6 as stated fails on the words "silently" and "no output of its own". The command on
  one pod with one container whose first read fails with \<open>EOF\<close>: after the steps of the
  goroutine the standard output, which is the writer of the command, holds
  \<^verbatim>\<open>ERR: EOF\<close> and a newline.
\<close>

theorem read_failure_prints_counterexample:
  "newCmdLogs_RunE bufferWrite [] [] [] (Some \<lparr>Items = [mkPod ''api'' [''stdout'']]\<rparr>)
     failingStream [Go 0, Go 0] =
   Inr \<lparr>colorPicker = newColorPicker, goroutines = [Returned], lineReadClosed = False,
        mainLoop = Receiving, files = ''ERR: EOF'' @ [CHR 0x0A], exited = None\<rparr>"
  by (simp add: newCmdLogs_RunE_def newLogOptions_def validateArgs_def logFilter_zero_def
        runLogOutput_def start_def Pod_zero_def mkPod_def step_def goStep_def
        failingStream_def bufferWrite_def)

text \<open>
  C7. When the main loop has received a line and the write of the line to the writer
  fails, the process exits with code 1 in that step, and under every schedule nothing
  happens afterwards: the writer is not written to again.
\<close>

theorem write_failure_exits:
  assumes "exited s = None" and "mainLoop s = Printing line"
    and "Write (files s) line = (w, Some err)"
  shows "step Write os_Stdout opts Main s = s\<lparr>files := w, exited := Some 1\<rparr> \<and>
         (\<forall>sched. run Write os_Stdout opts sched (step Write os_Stdout opts Main s) =
                    s\<lparr>files := w, exited := Some 1\<rparr>)"
proof -
  have st: "step Write os_Stdout opts Main s = s\<lparr>files := w, exited := Some 1\<rparr>"
    using assms by (simp add: step_def mainStep_def)
  show ?thesis unfolding st by (simp add: run_exited)
qed

text \<open>
  The theorem at a closed pipe: the line of \<open>worker\<close> was received, \<open>api\<close> is blocked on
  its send; after the failed write \<open>api\<close> is never received.
\<close>

theorem write_failure_exits_witness:
  "run closedWrite closedWrite (unfilteredOpts twoSources threeLines) [Go 0, Main, Go 1]
     (step closedWrite closedWrite (unfilteredOpts twoSources threeLines) Main
        \<lparr>colorPicker = newColorPicker,
         goroutines = [Sending ''api'' ''stdout'' ''a'' [], Reading ''worker'' ''stdout'' []],
         lineReadClosed = False, mainLoop = Printing ''w'', files = [], exited = None\<rparr>) =
   \<lparr>colorPicker = newColorPicker,
    goroutines = [Sending ''api'' ''stdout'' ''a'' [], Reading ''worker'' ''stdout'' []],
    lineReadClosed = False, mainLoop = Printing ''w'', files = [], exited = Some 1\<rparr>"
proof -
  let ?s = "\<lparr>colorPicker = newColorPicker,
         goroutines = [Sending ''api'' ''stdout'' ''a'' [], Reading ''worker'' ''stdout'' []],
         lineReadClosed = False, mainLoop = Printing ''w'', files = ([] :: string),
         exited = None\<rparr>"
  have h1: "exited ?s = None" by simp
  have h2: "mainLoop ?s = Printing ''w''" by simp
  have h3: "closedWrite (files ?s) ''w'' = ([], Some (errors_New ''io: read/write on closed pipe''))"
    by (simp add: closedWrite_def)
  note t = write_failure_exits [where Write = closedWrite and os_Stdout = closedWrite
      and opts = "unfilteredOpts twoSources threeLines", OF h1 h2 h3]
  from t [THEN conjunct2, rule_format, of "[Go 0, Main, Go 1]"]
  show ?thesis by simp
qed

end
